theory Spec2Isabelle
  imports Main "HOL-Library.Word" "HOL-Library.Multiset"
begin

unbundle bit_operations_syntax

section \<open>Data model (CxxLayout.h)\<close>

text \<open>
  The enumeration \<^verbatim>\<open>FieldType\<close> and the class \<^verbatim>\<open>FieldInfo\<close>. A node owns its
  children through \<^verbatim>\<open>unique_ptr\<close>, so a layout is a finite tree and the class becomes a
  recursive datatype whose selectors carry the member names (\<open>size'\<close> for
  \<^verbatim>\<open>size\<close>, which is taken in HOL). \<^verbatim>\<open>uint64_t\<close> members are
  64-bit words; a \<^verbatim>\<open>clang::CharUnits\<close> is its \<^verbatim>\<open>int64_t\<close> quantity, a 64-bit word that is
  read signed when it is printed.
\<close>

datatype FieldType = Simple | Record | BitField | NVBase | VBase | VPtr

fun fieldTypeToString :: "FieldType \<Rightarrow> string" where
  "fieldTypeToString Record = ''Record''"
| "fieldTypeToString VPtr = ''VPtr''"
| "fieldTypeToString NVBase = ''NVBase''"
| "fieldTypeToString BitField = ''BitField''"
| "fieldTypeToString Simple = ''Simple''"
| "fieldTypeToString VBase = ''Unknown''"

datatype FieldInfo = FieldInfo
  (isValid: bool)
  (fieldType: FieldType)
  (name: string)
  (type: string)
  (offset: "64 word")
  (size': "64 word")
  (align: "64 word")
  (bitWidth: "64 word")
  (subFields: "FieldInfo list")

text \<open>
  \<^verbatim>\<open>std::make_unique<FieldInfo>()\<close> value-initialises the object: the class has no
  user-provided constructor, so every scalar member is zero (\<^verbatim>\<open>false\<close>, the first
  enumerator, 0) and the strings and the child vector are empty.
\<close>

definition make_FieldInfo :: FieldInfo where
  "make_FieldInfo = FieldInfo False Simple [] [] 0 0 0 0 []"

text \<open>Assignments to single members of a node.\<close>

fun set_isValid :: "bool \<Rightarrow> FieldInfo \<Rightarrow> FieldInfo" where
  "set_isValid v (FieldInfo _ ft n t off sz al bw sf) = FieldInfo v ft n t off sz al bw sf"

fun set_fieldType :: "FieldType \<Rightarrow> FieldInfo \<Rightarrow> FieldInfo" where
  "set_fieldType ft (FieldInfo v _ n t off sz al bw sf) = FieldInfo v ft n t off sz al bw sf"

fun set_name :: "string \<Rightarrow> FieldInfo \<Rightarrow> FieldInfo" where
  "set_name n (FieldInfo v ft _ t off sz al bw sf) = FieldInfo v ft n t off sz al bw sf"

fun set_offset :: "64 word \<Rightarrow> FieldInfo \<Rightarrow> FieldInfo" where
  "set_offset off (FieldInfo v ft n t _ sz al bw sf) = FieldInfo v ft n t off sz al bw sf"

fun set_subFields :: "FieldInfo list \<Rightarrow> FieldInfo \<Rightarrow> FieldInfo" where
  "set_subFields sf (FieldInfo v ft n t off sz al bw _) = FieldInfo v ft n t off sz al bw sf"

section \<open>Session state (LayoutContext)\<close>

text \<open>
  \<^verbatim>\<open>std::map<int64_t, FieldInfoPtr>\<close> is an association list that is kept in the
  order in which the C++ map iterates: ascending in the signed order of the keys, one
  entry for each key. \<open>map_find\<close> is \<^verbatim>\<open>find\<close> (\<open>None\<close> for \<^verbatim>\<open>end()\<close>) and
  \<open>map_assign\<close> is the assignment \<^verbatim>\<open>records[Id] = ...\<close>, which inserts the key at
  its place or overwrites the value stored under it.
\<close>

type_synonym 'a std_map = "(64 word \<times> 'a) list"

fun map_find :: "64 word \<Rightarrow> 'a std_map \<Rightarrow> 'a option" where
  "map_find k [] = None"
| "map_find k ((k', v') # m) = (if k = k' then Some v' else map_find k m)"

fun map_assign :: "64 word \<Rightarrow> 'a \<Rightarrow> 'a std_map \<Rightarrow> 'a std_map" where
  "map_assign k v [] = [(k, v)]"
| "map_assign k v ((k', v') # m) =
     (if k = k' then (k, v) # m
      else if k <s k' then (k, v) # (k', v') # m
      else (k', v') # map_assign k v m)"

definition DEFAULT_ARGS :: string where
  "DEFAULT_ARGS = ''--target=x86_64-pc-linux-gnu''"

record LayoutContext =
  args :: string
  recordList :: string
  records :: "FieldInfo std_map"

text \<open>The function-local static of \<^verbatim>\<open>getContext\<close> when the program starts.\<close>

definition getContext :: LayoutContext where
  "getContext = \<lparr>args = DEFAULT_ARGS, recordList = [], records = []\<rparr>"

section \<open>String escaping (writeEscaped)\<close>

text \<open>
  The table \<^verbatim>\<open>Hex\<close> of \<^verbatim>\<open>writeEscaped\<close>. Its index is always masked with
  \<^verbatim>\<open>0xF\<close>, so the lookup stays inside the sixteen digits.
\<close>

definition Hex :: string where
  "Hex = ''0123456789ABCDEF''"

text \<open>
  One iteration of the loop of \<^verbatim>\<open>writeEscaped\<close>: the text appended to the stream for
  the byte \<open>c\<close>. \<open>C\<close> is the byte as \<^verbatim>\<open>unsigned char\<close>; the cases are those of the
  \<^verbatim>\<open>switch\<close>, in its order. The backslash is \<open>CHR 0x5C\<close> and the double quote
  \<open>CHR 0x22\<close>.
\<close>

definition writeEscaped_char :: "char \<Rightarrow> string" where
  "writeEscaped_char c =
    (let C = (of_char c :: 8 word) in
     if C = 0x22 then [CHR 0x5C, CHR 0x22]
     else if C = 0x5C then [CHR 0x5C, CHR 0x5C]
     else if C = 0x08 then [CHR 0x5C, CHR ''b'']
     else if C = 0x0C then [CHR 0x5C, CHR ''f'']
     else if C = 0x0A then [CHR 0x5C, CHR ''n'']
     else if C = 0x0D then [CHR 0x5C, CHR ''r'']
     else if C = 0x09 then [CHR 0x5C, CHR ''t'']
     else if C < 0x20 then
       [CHR 0x5C, CHR ''u'', CHR ''0'', CHR ''0'',
        Hex ! unat (drop_bit 4 C AND 0xF), Hex ! unat (C AND 0xF)]
     else [c])"

text \<open>The loop over the bytes of \<open>S\<close>, from the first to the last.\<close>

fun writeEscaped :: "string \<Rightarrow> string" where
  "writeEscaped [] = []"
| "writeEscaped (c # S) = writeEscaped_char c @ writeEscaped S"

section \<open>The declarations supplied by the front end\<close>

text \<open>
  \<^verbatim>\<open>analyzeRecord\<close> reads a \<^verbatim>\<open>clang::CXXRecordDecl\<close>, its
  \<^verbatim>\<open>ASTRecordLayout\<close> and the target of the \<^verbatim>\<open>ASTContext\<close>. These classes belong to
  the compiler front end, not to this program, so they are its input: each is a datatype
  holding exactly the values the program asks for, named after the member function that
  returns them.

  \<^item> \<^verbatim>\<open>CXXRecordDecl\<close>: \<open>getID\<close>, \<open>isCompleteDefinition\<close>, \<open>isInvalidDecl\<close>,
    \<open>getQualifiedNameAsString\<close>, \<open>bases\<close> and \<open>fields\<close>; of the layout
    \<^verbatim>\<open>Ctx.getASTRecordLayout(RD)\<close>: \<open>getSize\<close>, \<open>getAlignment\<close> (both
    \<^verbatim>\<open>CharUnits\<close>) and \<open>hasOwnVFPtr\<close>.
  \<^item> \<^verbatim>\<open>CXXBaseSpecifier\<close>: \<open>isVirtual\<close>, the record \<open>baseDecl\<close> that
    \<^verbatim>\<open>Base.getType()->getAsCXXRecordDecl()\<close> returns, and \<open>getBaseClassOffset\<close>, the
    quantity of \<^verbatim>\<open>Layout.getBaseClassOffset(BaseDecl)\<close> in the enclosing record.
  \<^item> \<^verbatim>\<open>FieldDecl\<close>: \<open>fieldIsInvalidDecl\<close>, \<open>getNameAsString\<close>, \<open>getTypeAsString\<close>
    for \<^verbatim>\<open>Field->getType().getAsString()\<close>, \<open>getAsCXXRecordDecl\<close> (\<open>None\<close> for the
    null pointer), \<open>getTypeSizeInChars\<close>, \<open>getTypeAlignInChars\<close>, \<open>isBitField\<close>,
    \<open>getBitWidthValue\<close> (an \<^verbatim>\<open>unsigned\<close>), and \<open>getFieldOffset\<close>: what
    \<^verbatim>\<open>Layout.getFieldOffset(fieldIndex)\<close> returns at the index of this field, in bits.
\<close>

datatype CXXRecordDecl = CXXRecordDecl
  (getID: "64 word")
  (isCompleteDefinition: bool)
  (isInvalidDecl: bool)
  (getQualifiedNameAsString: string)
  (getSize: "64 word")
  (getAlignment: "64 word")
  (hasOwnVFPtr: bool)
  (bases: "CXXBaseSpecifier list")
  (fields: "FieldDecl list")
and CXXBaseSpecifier = CXXBaseSpecifier
  (isVirtual: bool)
  (baseDecl: CXXRecordDecl)
  (getBaseClassOffset: "64 word")
and FieldDecl = FieldDecl
  (fieldIsInvalidDecl: bool)
  (getNameAsString: string)
  (getTypeAsString: string)
  (getAsCXXRecordDecl: "CXXRecordDecl option")
  (getFieldOffset: "64 word")
  (getTypeSizeInChars: "64 word")
  (getTypeAlignInChars: "64 word")
  (isBitField: bool)
  (getBitWidthValue: "32 word")

text \<open>
  The target: \<^verbatim>\<open>getPointerWidth\<close> and \<^verbatim>\<open>getPointerAlign\<close> of the default address
  space, and \<^verbatim>\<open>getCharWidth\<close>, all in bits.
\<close>

datatype ASTContext = ASTContext
  (getPointerWidth: "64 word")
  (getPointerAlign: "64 word")
  (getCharWidth: "64 word")

text \<open>
  \<^verbatim>\<open>ASTContext::toCharUnitsFromBits\<close> divides the bit size by the width of
  \<^verbatim>\<open>char\<close>, an \<^verbatim>\<open>uint64_t\<close>: the division is unsigned.
\<close>

definition toCharUnitsFromBits :: "ASTContext \<Rightarrow> 64 word \<Rightarrow> 64 word" where
  "toCharUnitsFromBits Ctx BitSize = BitSize div getCharWidth Ctx"

section \<open>The layout analyzer (analyzeRecord)\<close>

text \<open>\<^verbatim>\<open>Info->subFields.push_back(...)\<close> and \<^verbatim>\<open>Info->isValid &= ...\<close>.\<close>

definition push_back :: "FieldInfo \<Rightarrow> FieldInfo \<Rightarrow> FieldInfo" where
  "push_back Sub Info = set_subFields (subFields Info @ [Sub]) Info"

definition and_isValid :: "bool \<Rightarrow> FieldInfo \<Rightarrow> FieldInfo" where
  "and_isValid v Info = set_isValid (isValid Info \<and> v) Info"

text \<open>
  \<^verbatim>\<open>llvm::sort\<close> with the comparator \<^verbatim>\<open>A->offset < B->offset\<close> on the unsigned
  offsets. The C++ sort promises an ascending permutation and leaves the order of nodes
  with equal offsets open; the model takes the insertion sort by key of the list library
  for it, and no result below depends on how ties are ordered.
\<close>

definition llvm_sort :: "FieldInfo list \<Rightarrow> FieldInfo list" where
  "llvm_sort Bases = sort_key offset Bases"

text \<open>The node built for the virtual-table pointer.\<close>

definition VPtrInfo :: "ASTContext \<Rightarrow> FieldInfo" where
  "VPtrInfo Ctx =
     FieldInfo True VPtr (name make_FieldInfo) ''vptr'' 0
       (toCharUnitsFromBits Ctx (getPointerWidth Ctx))
       (toCharUnitsFromBits Ctx (getPointerAlign Ctx))
       (bitWidth make_FieldInfo) (subFields make_FieldInfo)"

text \<open>The leaf node built for a field \<open>FieldD\<close> whose type is not a record.\<close>

definition leafField :: "FieldDecl \<Rightarrow> FieldInfo" where
  "leafField FieldD =
     FieldInfo (\<not> fieldIsInvalidDecl FieldD)
       (if isBitField FieldD then BitField else Simple)
       (getNameAsString FieldD) (getTypeAsString FieldD) (getFieldOffset FieldD)
       (getTypeSizeInChars FieldD) (getTypeAlignInChars FieldD)
       (if isBitField FieldD then ucast (getBitWidthValue FieldD) else bitWidth make_FieldInfo)
       (subFields make_FieldInfo)"

text \<open>
  \<^verbatim>\<open>analyzeRecord\<close> with its two loops. \<open>basesLoop\<close> is the loop over
  \<^verbatim>\<open>RD->bases()\<close>: its state is \<^verbatim>\<open>Info->isValid\<close> and the vector \<^verbatim>\<open>Bases\<close>.
  \<open>fieldsLoop\<close> is the loop over \<^verbatim>\<open>RD->fields()\<close>: its state is the node
  \<^verbatim>\<open>Info\<close>. The declarations form a finite tree, so the recursion ends. The
  function asserts that the C++ ABI of the target belongs to the Itanium family; this is
  its precondition, and the definition describes it on such targets.
\<close>

function analyzeRecord :: "ASTContext \<Rightarrow> CXXRecordDecl \<Rightarrow> FieldInfo"
  and basesLoop :: "ASTContext \<Rightarrow> CXXBaseSpecifier list \<Rightarrow> bool \<times> FieldInfo list
                      \<Rightarrow> bool \<times> FieldInfo list"
  and fieldsLoop :: "ASTContext \<Rightarrow> FieldDecl list \<Rightarrow> FieldInfo \<Rightarrow> FieldInfo"
where
  "analyzeRecord Ctx RD =
     (let Info = FieldInfo (\<not> isInvalidDecl RD) Record (name make_FieldInfo)
                   (getQualifiedNameAsString RD) (offset make_FieldInfo)
                   (getSize RD) (getAlignment RD)
                   (bitWidth make_FieldInfo) (subFields make_FieldInfo);
          Info = (if hasOwnVFPtr RD then push_back (VPtrInfo Ctx) Info else Info);
          (valid, Bases) = basesLoop Ctx (bases RD) (isValid Info, []);
          Info = set_isValid valid Info;
          Info = set_subFields (subFields Info @ llvm_sort Bases) Info
      in fieldsLoop Ctx (fields RD) Info)"
| "basesLoop Ctx [] st = st"
| "basesLoop Ctx (Base # rest) (valid, Bases) =
     (if isVirtual Base then basesLoop Ctx rest (valid, Bases)
      else
        let BaseInfo = analyzeRecord Ctx (baseDecl Base);
            BaseInfo = set_fieldType NVBase BaseInfo;
            BaseInfo = set_offset (getBaseClassOffset Base * 8) BaseInfo
        in basesLoop Ctx rest (valid \<and> isValid BaseInfo, Bases @ [BaseInfo]))"
| "fieldsLoop Ctx [] Info = Info"
| "fieldsLoop Ctx (FieldD # rest) Info =
     (case getAsCXXRecordDecl FieldD of
        Some FieldRecord \<Rightarrow>
          let SubFieldInfo = analyzeRecord Ctx FieldRecord;
              SubFieldInfo = set_name (getNameAsString FieldD) SubFieldInfo;
              SubFieldInfo = set_offset (getFieldOffset FieldD) SubFieldInfo
          in fieldsLoop Ctx rest (push_back SubFieldInfo (and_isValid (isValid SubFieldInfo) Info))
      | None \<Rightarrow>
          let SubFieldInfo = leafField FieldD
          in fieldsLoop Ctx rest (push_back SubFieldInfo (and_isValid (isValid SubFieldInfo) Info)))"
  by pat_completeness auto
termination
  apply (relation "measure (\<lambda>x. case x of
         Inl (Ctx, RD) \<Rightarrow> size RD
       | Inr (Inl (Ctx, Bs, st)) \<Rightarrow> size_list size Bs
       | Inr (Inr (Ctx, Fs, Info)) \<Rightarrow> size_list size Fs)")
          apply simp_all
  subgoal for Ctx RD by (cases RD) simp
  subgoal for Ctx RD by (cases RD) simp
  subgoal for Base rest by (cases Base) simp
  subgoal for FieldD rest FieldRecord by (cases FieldD) auto
  done

section \<open>The declaration visitor\<close>

text \<open>
  \<^verbatim>\<open>RecursiveDeclVisitor::VisitCXXRecordDecl\<close>. The argument is \<open>None\<close> for a null
  pointer. \<open>Ctx\<close> stands for \<^verbatim>\<open>RD->getASTContext()\<close>.
\<close>

definition VisitCXXRecordDecl ::
  "ASTContext \<Rightarrow> CXXRecordDecl option \<Rightarrow> LayoutContext \<Rightarrow> LayoutContext" where
  "VisitCXXRecordDecl Ctx RDp LCtx =
     (case RDp of
        None \<Rightarrow> LCtx
      | Some RD \<Rightarrow>
          if \<not> isCompleteDefinition RD then LCtx
          else
            let Id' = getID RD in
            if map_find Id' (records LCtx) \<noteq> None then LCtx
            else LCtx\<lparr>records := map_assign Id' (analyzeRecord Ctx RD) (records LCtx)\<rparr>)"

text \<open>
  \<^verbatim>\<open>Consumer::HandleTranslationUnit\<close>: the traversal calls the visitor on the record
  declarations of the translation unit, here the list \<open>RDs\<close> in the order of the
  traversal.
\<close>

fun HandleTranslationUnit ::
  "ASTContext \<Rightarrow> CXXRecordDecl option list \<Rightarrow> LayoutContext \<Rightarrow> LayoutContext" where
  "HandleTranslationUnit Ctx [] LCtx = LCtx"
| "HandleTranslationUnit Ctx (RDp # RDs) LCtx =
     HandleTranslationUnit Ctx RDs (VisitCXXRecordDecl Ctx RDp LCtx)"

section \<open>Text output\<close>

text \<open>
  Decimal output of the LLVM support library: \<^verbatim>\<open>llvm::utostr\<close> and the stream
  operator \<^verbatim>\<open><<\<close> for \<^verbatim>\<open>uint64_t\<close> print the digits of the unsigned value without
  leading zeros; the operator for \<^verbatim>\<open>int64_t\<close> prints a minus sign and the magnitude
  of a negative value.
\<close>

definition digit_char :: "nat \<Rightarrow> char" where
  "digit_char d = char_of (48 + d)"

function decimal :: "nat \<Rightarrow> string" where
  "decimal X = (if X < 10 then [digit_char X] else decimal (X div 10) @ [digit_char (X mod 10)])"
  by pat_completeness auto
termination
  by (relation "measure (\<lambda>X. X)") auto

declare decimal.simps [simp del]

definition utostr :: "64 word \<Rightarrow> string" where
  "utostr X = decimal (unat X)"

definition write_uint64 :: "64 word \<Rightarrow> string" where
  "write_uint64 X = decimal (unat X)"

definition write_int64 :: "64 word \<Rightarrow> string" where
  "write_int64 X =
     (if sint X < 0 then CHR ''-'' # decimal (nat (- sint X)) else decimal (nat (sint X)))"

text \<open>
  \<^verbatim>\<open>dupJson\<close> returns a copy of its argument in a buffer of its own. The model
  returns the text; it does not model the heap, so the allocation always succeeds and
  the branch that returns the null pointer is not taken.
\<close>

definition dupJson :: "string \<Rightarrow> string" where
  "dupJson S = S"

text \<open>A double quote inside a C++ string literal.\<close>

abbreviation DQ :: string where
  "DQ \<equiv> [CHR 0x22]"

text \<open>
  The closure \<^verbatim>\<open>writeField\<close> of \<^verbatim>\<open>getLayoutForRecord\<close>: the text that one call
  appends to the stream. \<open>writeSubFields\<close> is its loop over \<^verbatim>\<open>F.subFields\<close>, with
  the flag \<^verbatim>\<open>first\<close> as its state. A child pointer of a tree built by
  \<^verbatim>\<open>analyzeRecord\<close> is never null, so the children are the nodes themselves and the
  test \<^verbatim>\<open>if (!SFptr) continue\<close> never fires.
\<close>

function writeField :: "FieldInfo \<Rightarrow> 32 word \<Rightarrow> string"
  and writeSubFields :: "FieldInfo list \<Rightarrow> 32 word \<Rightarrow> bool \<Rightarrow> string"
where
  "writeField F Depth =
     ''{'' @
     DQ @ ''fieldType'' @ DQ @ '':'' @ DQ @ fieldTypeToString (fieldType F) @ DQ @
     (if name F \<noteq> [] then
        '','' @ DQ @ ''name'' @ DQ @ '':'' @ DQ @ writeEscaped (name F) @ DQ
      else []) @
     '','' @ DQ @ ''type'' @ DQ @ '':'' @ DQ @ writeEscaped (type F) @ DQ @
     '','' @ DQ @ ''size'' @ DQ @ '':'' @ write_int64 (size' F) @
     '','' @ DQ @ ''align'' @ DQ @ '':'' @ write_int64 (align F) @
     '','' @ DQ @ ''offset'' @ DQ @ '':'' @ write_uint64 (drop_bit 3 (offset F)) @
     (if fieldType F = BitField then
        '','' @ DQ @ ''bitWidth'' @ DQ @ '':'' @ write_uint64 (bitWidth F)
      else []) @
     (if fieldType F = Record \<or> fieldType F = NVBase then
        '','' @ DQ @ ''subFields'' @ DQ @ '': ['' @
        writeSubFields (subFields F) Depth True @ '']''
      else []) @
     ''}''"
| "writeSubFields [] Depth first = []"
| "writeSubFields (SF # rest) Depth first =
     (if \<not> first then '','' else []) @ writeField SF (Depth + 4) @
     writeSubFields rest Depth False"
  by pat_completeness auto
termination
  apply (relation "measure (\<lambda>x. case x of
         Inl (F, Depth) \<Rightarrow> size F
       | Inr (Fs, Depth, first) \<Rightarrow> size_list size Fs)")
     apply simp_all
  subgoal for F by (cases F) simp
  done

section \<open>The exported operations\<close>

text \<open>
  Each operation takes the session state and returns the state it leaves, after the
  text it returns, if any.
\<close>

definition cleanup :: "LayoutContext \<Rightarrow> LayoutContext" where
  "cleanup Ctx = Ctx\<lparr>recordList := [], records := []\<rparr>"

text \<open>
  The loop of \<^verbatim>\<open>getRecordList\<close> over the map; its state is the text \<open>RecordList\<close>
  and the flag \<open>first\<close>.
\<close>

fun recordListLoop :: "FieldInfo std_map \<Rightarrow> string \<times> bool \<Rightarrow> string \<times> bool" where
  "recordListLoop [] st = st"
| "recordListLoop (R # rest) (RecordList, first) =
     (let RecordList = (if \<not> first then RecordList @ '','' else RecordList);
          RecordList = RecordList @ ''{'' @ DQ @ ''id'' @ DQ @ '':'' @ DQ;
          RecordList = RecordList @ utostr (fst R);
          RecordList = RecordList @ DQ @ '','' @ DQ @ ''name'' @ DQ @ '':'' @ DQ;
          Escaped = writeEscaped (type (snd R));
          RecordList = RecordList @ Escaped;
          RecordList = RecordList @ DQ @ ''}''
      in recordListLoop rest (RecordList, False))"

definition getRecordList :: "LayoutContext \<Rightarrow> string \<times> LayoutContext" where
  "getRecordList Ctx =
     (let RecordList = [];
          RecordList = RecordList @ ''['';
          (RecordList, first) = recordListLoop (records Ctx) (RecordList, True);
          RecordList = RecordList @ '']''
      in (dupJson RecordList, Ctx\<lparr>recordList := RecordList\<rparr>))"

definition getLayoutForRecord :: "64 word \<Rightarrow> LayoutContext \<Rightarrow> string \<times> LayoutContext" where
  "getLayoutForRecord id' Ctx =
     (case map_find id' (records Ctx) of
        None \<Rightarrow> (dupJson ''{}'', Ctx)
      | Some Root \<Rightarrow> (dupJson (writeField Root 0), Ctx))"

text \<open>
  \<^verbatim>\<open>setArgs\<close>: a C string is its bytes before the terminator and \<open>None\<close> is the null
  pointer, so \<^verbatim>\<open>newArgs && newArgs[0]\<close> holds for a string that is not empty.
\<close>

definition setArgs :: "string option \<Rightarrow> LayoutContext \<Rightarrow> LayoutContext" where
  "setArgs newArgs Ctx =
     (case newArgs of
        Some (c # cs) \<Rightarrow> Ctx\<lparr>args := c # cs\<rparr>
      | _ \<Rightarrow> Ctx\<lparr>args := DEFAULT_ARGS\<rparr>)"

text \<open>The loop of \<^verbatim>\<open>splitArgs\<close>, with \<open>Result\<close> and \<open>Current\<close> as its state.\<close>

fun splitArgsLoop :: "string \<Rightarrow> string list \<times> string \<Rightarrow> string list \<times> string" where
  "splitArgsLoop [] st = st"
| "splitArgsLoop (C # Args) (Result, Current) =
     (if C = CHR '' '' then
        (if Current \<noteq> [] then splitArgsLoop Args (Result @ [Current], [])
         else splitArgsLoop Args (Result, Current))
      else splitArgsLoop Args (Result, Current @ [C]))"

definition splitArgs :: "string \<Rightarrow> string list" where
  "splitArgs Args =
     (let (Result, Current) = splitArgsLoop Args ([], [])
      in if Current \<noteq> [] then Result @ [Current] else Result)"

text \<open>
  \<^verbatim>\<open>analyzeSource\<close>. \<^verbatim>\<open>runToolOnCodeWithArgs\<close> is the compiler front end: it is
  the parameter \<open>runTool\<close>, which maps the source text and the argument vector to the
  target and the record declarations that the traversal of the translation unit visits
  (none when no translation unit is produced).
\<close>

type_synonym FrontEnd = "string \<Rightarrow> string list \<Rightarrow> ASTContext \<times> CXXRecordDecl option list"

definition analyzeSource :: "FrontEnd \<Rightarrow> string \<Rightarrow> LayoutContext \<Rightarrow> LayoutContext" where
  "analyzeSource runTool source Ctx =
     (let Ctx = Ctx\<lparr>recordList := [], records := []\<rparr>;
          localArgs = args Ctx;
          (AST, RDs) = runTool source (splitArgs localArgs)
      in HandleTranslationUnit AST RDs Ctx)"

text \<open>A call of one of the five exported operations, and a sequence of calls.\<close>

datatype call =
    Cleanup
  | GetRecordList
  | AnalyzeSource string
  | GetLayoutForRecord "64 word"
  | SetArgs "string option"

fun do_call :: "FrontEnd \<Rightarrow> call \<Rightarrow> LayoutContext \<Rightarrow> LayoutContext" where
  "do_call runTool Cleanup Ctx = cleanup Ctx"
| "do_call runTool GetRecordList Ctx = snd (getRecordList Ctx)"
| "do_call runTool (AnalyzeSource source) Ctx = analyzeSource runTool source Ctx"
| "do_call runTool (GetLayoutForRecord id') Ctx = snd (getLayoutForRecord id' Ctx)"
| "do_call runTool (SetArgs newArgs) Ctx = setArgs newArgs Ctx"

fun do_calls :: "FrontEnd \<Rightarrow> call list \<Rightarrow> LayoutContext \<Rightarrow> LayoutContext" where
  "do_calls runTool [] Ctx = Ctx"
| "do_calls runTool (c # cs) Ctx = do_calls runTool cs (do_call runTool c Ctx)"

section \<open>What the specification says, as definitions\<close>

text \<open>
  The definitions of this section are written from the words of the specification, not
  from the code; the theorems below compare the code with them.
\<close>

text \<open>
  The escaping rule of the serializer: the double quote and the backslash are escaped;
  backspace, form feed, newline, carriage return and tab get their short escapes; every
  other byte below \<open>0x20\<close> becomes \<^verbatim>\<open>\u\<close> and four hexadecimal digits (in upper
  case) of its value; every other byte is passed through unchanged.
\<close>

definition spec_hexdigit :: "nat \<Rightarrow> char" where
  "spec_hexdigit d = (if d < 10 then char_of (48 + d) else char_of (55 + d))"

definition spec_hex4 :: "nat \<Rightarrow> string" where
  "spec_hex4 n = [spec_hexdigit (n div 4096 mod 16), spec_hexdigit (n div 256 mod 16),
                  spec_hexdigit (n div 16 mod 16), spec_hexdigit (n mod 16)]"

definition spec_escape :: "char \<Rightarrow> string" where
  "spec_escape c =
     (if c = CHR 0x22 then [CHR 0x5C, CHR 0x22]
      else if c = CHR 0x5C then [CHR 0x5C, CHR 0x5C]
      else if c = CHR 0x08 then [CHR 0x5C, CHR ''b'']
      else if c = CHR 0x0C then [CHR 0x5C, CHR ''f'']
      else if c = CHR 0x0A then [CHR 0x5C, CHR ''n'']
      else if c = CHR 0x0D then [CHR 0x5C, CHR ''r'']
      else if c = CHR 0x09 then [CHR 0x5C, CHR ''t'']
      else if (of_char c :: nat) < 0x20 then [CHR 0x5C, CHR ''u''] @ spec_hex4 (of_char c)
      else [c])"

text \<open>
  The listing: an array of entries \<^verbatim>\<open>{"id":"...","name":"..."}\<close>, one for each
  record, separated by commas; the identity is written in decimal and the display name
  is escaped.
\<close>

fun spec_commaSep :: "string list \<Rightarrow> string" where
  "spec_commaSep [] = []"
| "spec_commaSep [x] = x"
| "spec_commaSep (x # y # ys) = x @ '','' @ spec_commaSep (y # ys)"

definition spec_listEntry :: "64 word \<times> FieldInfo \<Rightarrow> string" where
  "spec_listEntry R =
     ''{'' @ DQ @ ''id'' @ DQ @ '':'' @ DQ @ decimal (unat (fst R)) @ DQ @
     '','' @ DQ @ ''name'' @ DQ @ '':'' @ DQ @ writeEscaped (type (snd R)) @ DQ @ ''}''"

text \<open>The number that a string of decimal digits denotes.\<close>

definition spec_read_decimal :: "string \<Rightarrow> nat" where
  "spec_read_decimal s = foldl (\<lambda>a c. 10 * a + (of_char c - 48)) 0 s"

text \<open>
  The keys that the serializer writes before \<^verbatim>\<open>offset\<close>, in their fixed order:
  \<^verbatim>\<open>fieldType\<close>, \<^verbatim>\<open>name\<close> (omitted when empty), \<^verbatim>\<open>type\<close>, \<^verbatim>\<open>size\<close> and
  \<^verbatim>\<open>align\<close>.
\<close>

definition spec_keys_before_offset :: "FieldInfo \<Rightarrow> string" where
  "spec_keys_before_offset F =
     DQ @ ''fieldType'' @ DQ @ '':'' @ DQ @ fieldTypeToString (fieldType F) @ DQ @
     (if name F = [] then [] else '','' @ DQ @ ''name'' @ DQ @ '':'' @ DQ @ writeEscaped (name F) @ DQ) @
     '','' @ DQ @ ''type'' @ DQ @ '':'' @ DQ @ writeEscaped (type F) @ DQ @
     '','' @ DQ @ ''size'' @ DQ @ '':'' @ write_int64 (size' F) @
     '','' @ DQ @ ''align'' @ DQ @ '':'' @ write_int64 (align F)"

text \<open>The calls that are not \<^verbatim>\<open>analyzeSource\<close>.\<close>

fun isAnalyzeSource :: "call \<Rightarrow> bool" where
  "isAnalyzeSource (AnalyzeSource source) = True"
| "isAnalyzeSource _ = False"

section \<open>Notions used to state the properties of the analyzer\<close>

text \<open>
  The node that the loop over the bases appends for a non-virtual base, and the node
  that the loop over the fields appends for a field: the bodies of the two loops of
  \<^verbatim>\<open>analyzeRecord\<close>, as functions of the declaration they handle.
\<close>

definition baseNode :: "ASTContext \<Rightarrow> CXXBaseSpecifier \<Rightarrow> FieldInfo" where
  "baseNode Ctx Base =
     set_offset (getBaseClassOffset Base * 8) (set_fieldType NVBase (analyzeRecord Ctx (baseDecl Base)))"

definition fieldNode :: "ASTContext \<Rightarrow> FieldDecl \<Rightarrow> FieldInfo" where
  "fieldNode Ctx FieldD =
     (case getAsCXXRecordDecl FieldD of
        Some FieldRecord \<Rightarrow>
          set_offset (getFieldOffset FieldD)
            (set_name (getNameAsString FieldD) (analyzeRecord Ctx FieldRecord))
      | None \<Rightarrow> leafField FieldD)"

text \<open>
  All nodes of a layout tree, the root first, and the nodes strictly below the root.
\<close>

fun allNodes :: "FieldInfo \<Rightarrow> FieldInfo list" where
  "allNodes (FieldInfo v ft n t off sz al bw sf) =
     FieldInfo v ft n t off sz al bw sf # concat (map allNodes sf)"

definition descendants :: "FieldInfo \<Rightarrow> FieldInfo list" where
  "descendants F = concat (map allNodes (subFields F))"

section \<open>Example declarations\<close>

text \<open>
  Two targets: a 64-bit one, and one whose pointers are 16 bits wide and aligned to 8
  bits, as on AVR. The records are the ones a front end produces for

  \<^verbatim>\<open>struct A { int x; char y; };  struct B : A { double z; };\<close>

  \<^verbatim>\<open>struct E1 {};  struct E2 {};  struct D : E1, E2 {};\<close>

  \<^verbatim>\<open>struct V { virtual void f(); };  struct M : A, V {};\<close>

  under the Itanium rules on the 64-bit target: the two empty bases of \<open>D\<close> share
  offset 0, and in \<open>M\<close> the primary base \<open>V\<close> lies at offset 0, before \<open>A\<close>, which
  comes first in the inheritance list. \<open>exBad\<close> is a polymorphic record whose
  declaration is marked invalid, and \<open>exV16\<close> is \<open>V\<close> on the 16-bit target.
  \<open>exC\<close> is \<^verbatim>\<open>struct C { unsigned a:3; unsigned b:5; };\<close>, whose second bit-field
  starts at bit 3 of the byte of the first.
\<close>

definition target_x86_64 :: ASTContext where
  "target_x86_64 = ASTContext 64 64 8"

definition target_avr :: ASTContext where
  "target_avr = ASTContext 16 8 8"

definition exA :: CXXRecordDecl where
  "exA = CXXRecordDecl 1 True False ''A'' 8 4 False []
           [FieldDecl False ''x'' ''int'' None 0 4 4 False 0,
            FieldDecl False ''y'' ''char'' None 32 1 1 False 0]"

definition exB :: CXXRecordDecl where
  "exB = CXXRecordDecl 2 True False ''B'' 16 8 False [CXXBaseSpecifier False exA 0]
           [FieldDecl False ''z'' ''double'' None 64 8 8 False 0]"

definition exE1 :: CXXRecordDecl where
  "exE1 = CXXRecordDecl 3 True False ''E1'' 1 1 False [] []"

definition exE2 :: CXXRecordDecl where
  "exE2 = CXXRecordDecl 4 True False ''E2'' 1 1 False [] []"

definition exD :: CXXRecordDecl where
  "exD = CXXRecordDecl 5 True False ''D'' 1 1 False
           [CXXBaseSpecifier False exE1 0, CXXBaseSpecifier False exE2 0] []"

definition exV :: CXXRecordDecl where
  "exV = CXXRecordDecl 6 True False ''V'' 8 8 True [] []"

definition exM :: CXXRecordDecl where
  "exM = CXXRecordDecl 7 True False ''M'' 16 8 False
           [CXXBaseSpecifier False exA 8, CXXBaseSpecifier False exV 0] []"

definition exBad :: CXXRecordDecl where
  "exBad = CXXRecordDecl 8 True True ''Bad'' 8 8 True [] []"

definition exV16 :: CXXRecordDecl where
  "exV16 = CXXRecordDecl 9 True False ''V'' 2 1 True [] []"

definition exC :: CXXRecordDecl where
  "exC = CXXRecordDecl 10 True False ''C'' 4 4 False []
           [FieldDecl False ''a'' ''unsigned int'' None 0 4 4 True 3,
            FieldDecl False ''b'' ''unsigned int'' None 3 4 4 True 5]"

text \<open>
  A front end that finds \<open>B\<close>, \<open>A\<close>, \<open>M\<close> and \<open>C\<close>, in this order, whatever
  the source text and the arguments are, and the session after one analysis with it.
\<close>

definition exFrontEnd :: FrontEnd where
  "exFrontEnd source Args = (target_x86_64, [Some exB, Some exA, Some exM, Some exC])"

definition exSession :: LayoutContext where
  "exSession = analyzeSource exFrontEnd ''struct A { int x; char y; }; ...'' getContext"


section \<open>Bytes, nibbles and hexadecimal digits\<close>

lemma unat_of_char8: "unat (of_char c :: 8 word) = (of_char c :: nat)"
proof -
  have "(of_char c :: 8 word) = of_nat (of_char c)" by (simp add: of_nat_of_char)
  moreover have "(of_char c :: nat) < 256" by simp
  ultimately show ?thesis by (simp add: unat_of_nat)
qed

lemma of_char8_eq_iff: "(of_char c :: 8 word) = of_char d \<longleftrightarrow> c = d"
proof
  assume "(of_char c :: 8 word) = of_char d"
  then have "unat (of_char c :: 8 word) = unat (of_char d :: 8 word)" by simp
  then show "c = d" by (simp add: unat_of_char8)
qed simp

lemma Hex_nth:
  assumes "k < 16"
  shows "Hex ! k = spec_hexdigit k"
proof -
  from assms have "k \<in> {0, 1, 2, 3, 4, 5, 6, 7, 8, 9, 10, 11, 12, 13, 14, 15}"
    by simp arith
  then show ?thesis
    by (auto simp: Hex_def spec_hexdigit_def intro!: of_char_eqI[where ?'a=nat])
qed

lemma low_nibble: "unat ((C::8 word) AND 0xF) = unat C mod 16"
proof -
  have "(0xF :: 8 word) = mask 4" by (simp add: mask_eq_exp_minus_1)
  then have "C AND 0xF = take_bit 4 C" by (simp add: take_bit_eq_mask)
  then show ?thesis by (simp add: unsigned_take_bit_eq take_bit_eq_mod unat_mod)
qed

lemma high_nibble: "unat (drop_bit 4 (C::8 word) AND 0xF) = unat C div 16"
proof -
  have "unat C < 256" using unsigned_less[of C] by simp
  then have "unat C div 16 < 16" by simp
  moreover have "unat (drop_bit 4 C) = unat C div 16"
    by (simp add: unat_drop_bit_eq drop_bit_eq_div unat_div)
  ultimately show ?thesis by (simp add: low_nibble)
qed

lemma writeEscaped_char_spec: "writeEscaped_char c = spec_escape c"
proof -
  let ?C = "of_char c :: 8 word"
  let ?n = "of_char c :: nat"
  have eqs: "?C = 0x22 \<longleftrightarrow> c = CHR 0x22" "?C = 0x5C \<longleftrightarrow> c = CHR 0x5C"
    "?C = 0x08 \<longleftrightarrow> c = CHR 0x08" "?C = 0x0C \<longleftrightarrow> c = CHR 0x0C"
    "?C = 0x0A \<longleftrightarrow> c = CHR 0x0A" "?C = 0x0D \<longleftrightarrow> c = CHR 0x0D"
    "?C = 0x09 \<longleftrightarrow> c = CHR 0x09"
    using of_char8_eq_iff[of c "CHR 0x22"] of_char8_eq_iff[of c "CHR 0x5C"]
      of_char8_eq_iff[of c "CHR 0x08"] of_char8_eq_iff[of c "CHR 0x0C"]
      of_char8_eq_iff[of c "CHR 0x0A"] of_char8_eq_iff[of c "CHR 0x0D"]
      of_char8_eq_iff[of c "CHR 0x09"] by simp_all
  have lt: "?C < 0x20 \<longleftrightarrow> ?n < 0x20"
    by (simp add: word_less_nat_alt unat_of_char8)
  have hex: "[CHR ''0'', CHR ''0'', Hex ! unat (drop_bit 4 ?C AND 0xF), Hex ! unat (?C AND 0xF)]
      = spec_hex4 ?n" if a: "?n < 0x20"
  proof -
    from a have "?n div 4096 mod 16 = 0" "?n div 256 mod 16 = 0" "?n div 16 mod 16 = ?n div 16"
      by simp_all
    moreover have "?n div 16 < 16" "?n mod 16 < 16" using a by simp_all
    moreover have "unat (drop_bit 4 ?C AND 0xF) = ?n div 16" "unat (?C AND 0xF) = ?n mod 16"
      using high_nibble[of ?C] low_nibble[of ?C] by (simp_all only: unat_of_char8)
    moreover have "spec_hexdigit 0 = CHR ''0''"
      using Hex_nth[of 0] by (simp add: Hex_def)
    ultimately show ?thesis
      by (simp add: spec_hex4_def Hex_nth)
  qed
  show ?thesis
    unfolding writeEscaped_char_def spec_escape_def Let_def eqs lt
    using hex by simp
qed

section \<open>The analyzer in closed form\<close>

lemma set_isValid_sel [simp]:
  "isValid (set_isValid v F) = v" "fieldType (set_isValid v F) = fieldType F"
  "name (set_isValid v F) = name F" "type (set_isValid v F) = type F"
  "offset (set_isValid v F) = offset F" "size' (set_isValid v F) = size' F"
  "align (set_isValid v F) = align F" "bitWidth (set_isValid v F) = bitWidth F"
  "subFields (set_isValid v F) = subFields F"
  by (cases F; simp)+

lemma set_fieldType_sel [simp]:
  "isValid (set_fieldType ft F) = isValid F" "fieldType (set_fieldType ft F) = ft"
  "name (set_fieldType ft F) = name F" "type (set_fieldType ft F) = type F"
  "offset (set_fieldType ft F) = offset F" "size' (set_fieldType ft F) = size' F"
  "align (set_fieldType ft F) = align F" "bitWidth (set_fieldType ft F) = bitWidth F"
  "subFields (set_fieldType ft F) = subFields F"
  by (cases F; simp)+

lemma set_name_sel [simp]:
  "isValid (set_name n F) = isValid F" "fieldType (set_name n F) = fieldType F"
  "name (set_name n F) = n" "type (set_name n F) = type F"
  "offset (set_name n F) = offset F" "size' (set_name n F) = size' F"
  "align (set_name n F) = align F" "bitWidth (set_name n F) = bitWidth F"
  "subFields (set_name n F) = subFields F"
  by (cases F; simp)+

lemma set_offset_sel [simp]:
  "isValid (set_offset off F) = isValid F" "fieldType (set_offset off F) = fieldType F"
  "name (set_offset off F) = name F" "type (set_offset off F) = type F"
  "offset (set_offset off F) = off" "size' (set_offset off F) = size' F"
  "align (set_offset off F) = align F" "bitWidth (set_offset off F) = bitWidth F"
  "subFields (set_offset off F) = subFields F"
  by (cases F; simp)+

lemma set_subFields_sel [simp]:
  "isValid (set_subFields sf F) = isValid F" "fieldType (set_subFields sf F) = fieldType F"
  "name (set_subFields sf F) = name F" "type (set_subFields sf F) = type F"
  "offset (set_subFields sf F) = offset F" "size' (set_subFields sf F) = size' F"
  "align (set_subFields sf F) = align F" "bitWidth (set_subFields sf F) = bitWidth F"
  "subFields (set_subFields sf F) = sf"
  by (cases F; simp)+

lemma basesLoop_eq:
  "basesLoop Ctx Bs (valid, Bases) =
     (valid \<and> list_all isValid (map (baseNode Ctx) (filter (\<lambda>B. \<not> isVirtual B) Bs)),
      Bases @ map (baseNode Ctx) (filter (\<lambda>B. \<not> isVirtual B) Bs))"
  by (induction Bs arbitrary: valid Bases) (auto simp: baseNode_def Let_def)

lemma fieldsLoop_eq:
  "fieldsLoop Ctx Fs Info =
     set_subFields (subFields Info @ map (fieldNode Ctx) Fs)
       (set_isValid (isValid Info \<and> list_all isValid (map (fieldNode Ctx) Fs)) Info)"
proof (induction Fs arbitrary: Info)
  case Nil
  show ?case by (cases Info) simp
next
  case (Cons FieldD Fs)
  show ?case
    by (cases Info; cases "getAsCXXRecordDecl FieldD")
       (auto simp: Cons fieldNode_def push_back_def and_isValid_def Let_def)
qed

lemma analyzeRecord_eq:
  "analyzeRecord Ctx RD =
     FieldInfo
       (\<not> isInvalidDecl RD
          \<and> list_all isValid (map (baseNode Ctx) (filter (\<lambda>B. \<not> isVirtual B) (bases RD)))
          \<and> list_all isValid (map (fieldNode Ctx) (fields RD)))
       Record [] (getQualifiedNameAsString RD) 0 (getSize RD) (getAlignment RD) 0
       ((if hasOwnVFPtr RD then [VPtrInfo Ctx] else [])
          @ llvm_sort (map (baseNode Ctx) (filter (\<lambda>B. \<not> isVirtual B) (bases RD)))
          @ map (fieldNode Ctx) (fields RD))"
  by (simp add: basesLoop_eq fieldsLoop_eq push_back_def make_FieldInfo_def Let_def
        del: basesLoop.simps fieldsLoop.simps)

declare analyzeRecord.simps [simp del]

lemma size_baseDecl: "B \<in> set (bases RD) \<Longrightarrow> size (baseDecl B) < size RD"
proof -
  assume a: "B \<in> set (bases RD)"
  have "size (baseDecl B) < size B" by (cases B) simp
  moreover have "size B \<le> size_list size (bases RD)" using a by (simp add: size_list_estimation')
  moreover have "size_list size (bases RD) < size RD" by (cases RD) simp
  ultimately show ?thesis by simp
qed

lemma size_fieldRecord:
  "F \<in> set (fields RD) \<Longrightarrow> getAsCXXRecordDecl F = Some FR \<Longrightarrow> size FR < size RD"
proof -
  assume a: "F \<in> set (fields RD)" and b: "getAsCXXRecordDecl F = Some FR"
  have "size FR < size F" using b by (cases F) auto
  moreover have "size F \<le> size_list size (fields RD)" using a by (simp add: size_list_estimation')
  moreover have "size_list size (fields RD) < size RD" by (cases RD) simp
  ultimately show ?thesis by simp
qed

lemma decl_induct [case_names Decl]:
  assumes "\<And>RD. (\<And>B. B \<in> set (bases RD) \<Longrightarrow> P (baseDecl B)) \<Longrightarrow>
             (\<And>F FR. F \<in> set (fields RD) \<Longrightarrow> getAsCXXRecordDecl F = Some FR \<Longrightarrow> P FR) \<Longrightarrow> P RD"
  shows "P RD"
proof (induction RD rule: measure_induct_rule[where f = size])
  case (less RD)
  show ?case
    by (rule assms) (auto intro: less size_baseDecl size_fieldRecord)
qed

lemma allNodes_eq: "allNodes F = F # descendants F"
  by (cases F) (simp add: descendants_def)

declare allNodes.simps [simp del]

lemma descendants_setters [simp]:
  "descendants (set_offset off F) = descendants F"
  "descendants (set_name n F) = descendants F"
  "descendants (set_fieldType ft F) = descendants F"
  by (simp_all add: descendants_def)

lemma descendants_leaf [simp]:
  "descendants (leafField FieldD) = []" "descendants (VPtrInfo Ctx) = []"
  by (simp_all add: descendants_def leafField_def VPtrInfo_def make_FieldInfo_def)

lemma set_descendants:
  "set (descendants F) = (\<Union>c \<in> set (subFields F). insert c (set (descendants c)))"
proof -
  have "set (descendants F) = (\<Union>c \<in> set (subFields F). set (allNodes c))"
    by (simp add: descendants_def)
  then show ?thesis by (simp only: allNodes_eq list.set)
qed

lemma subFields_analyzeRecord:
  "subFields (analyzeRecord Ctx RD) =
     (if hasOwnVFPtr RD then [VPtrInfo Ctx] else [])
       @ llvm_sort (map (baseNode Ctx) (filter (\<lambda>B. \<not> isVirtual B) (bases RD)))
       @ map (fieldNode Ctx) (fields RD)"
  by (subst analyzeRecord_eq) simp

lemma isValid_analyzeRecord:
  "isValid (analyzeRecord Ctx RD) =
     (\<not> isInvalidDecl RD
        \<and> list_all isValid (map (baseNode Ctx) (filter (\<lambda>B. \<not> isVirtual B) (bases RD)))
        \<and> list_all isValid (map (fieldNode Ctx) (fields RD)))"
  by (subst analyzeRecord_eq) simp

lemma fieldType_analyzeRecord [simp]: "fieldType (analyzeRecord Ctx RD) = Record"
  by (subst analyzeRecord_eq) simp

lemma fieldType_baseNode [simp]: "fieldType (baseNode Ctx B) = NVBase"
  by (simp add: baseNode_def)

lemma fieldType_fieldNode:
  "fieldType (fieldNode Ctx F) = Record \<or> fieldType (fieldNode Ctx F) = Simple
     \<or> fieldType (fieldNode Ctx F) = BitField"
  by (simp add: fieldNode_def leafField_def split: option.split)

lemma fieldType_VPtrInfo [simp]: "fieldType (VPtrInfo Ctx) = VPtr"
  by (simp add: VPtrInfo_def)

lemma set_subFields_analyzeRecord:
  "set (subFields (analyzeRecord Ctx RD)) =
     (if hasOwnVFPtr RD then {VPtrInfo Ctx} else {})
       \<union> baseNode Ctx ` {B \<in> set (bases RD). \<not> isVirtual B}
       \<union> fieldNode Ctx ` set (fields RD)"
  by (auto simp: subFields_analyzeRecord llvm_sort_def)

lemma isValid_analyzeRecord_children:
  "isValid (analyzeRecord Ctx RD) =
     (\<not> isInvalidDecl RD \<and> list_all isValid (subFields (analyzeRecord Ctx RD)))"
  by (auto simp: isValid_analyzeRecord[of Ctx RD] set_subFields_analyzeRecord[of Ctx RD]
        list_all_iff VPtrInfo_def)

lemma descendants_baseNode [simp]:
  "descendants (baseNode Ctx B) = descendants (analyzeRecord Ctx (baseDecl B))"
  by (simp add: baseNode_def)

lemma isValid_baseNode [simp]:
  "isValid (baseNode Ctx B) = isValid (analyzeRecord Ctx (baseDecl B))"
  by (simp add: baseNode_def)

lemma valid_downward:
  "isValid (analyzeRecord Ctx RD) \<Longrightarrow> n \<in> set (descendants (analyzeRecord Ctx RD)) \<Longrightarrow> isValid n"
proof (induction RD arbitrary: n rule: decl_induct)
  case (Decl RD)
  from Decl.prems(2) obtain c where c: "c \<in> set (subFields (analyzeRecord Ctx RD))"
    and n: "n = c \<or> n \<in> set (descendants c)"
    unfolding set_descendants[of "analyzeRecord Ctx RD"] by auto
  from Decl.prems(1) c have vc: "isValid c"
    by (simp add: isValid_analyzeRecord_children[of Ctx RD] list_all_iff)
  from c consider (vptr) "c = VPtrInfo Ctx"
    | (base) B where "B \<in> set (bases RD)" "c = baseNode Ctx B"
    | (field) F where "F \<in> set (fields RD)" "c = fieldNode Ctx F"
    by (auto simp: set_subFields_analyzeRecord split: if_splits)
  then show ?case
  proof cases
    case vptr
    with n vc show ?thesis by auto
  next
    case (base B)
    with n vc Decl.IH(1)[of B n] show ?thesis by auto
  next
    case (field F)
    show ?thesis
    proof (cases "getAsCXXRecordDecl F")
      case None
      with field n vc show ?thesis by (auto simp: fieldNode_def)
    next
      case (Some FR)
      with field n vc Decl.IH(2)[of F FR n] show ?thesis by (auto simp: fieldNode_def)
    qed
  qed
qed

lemma name_fieldNode [simp]: "name (fieldNode Ctx F) = getNameAsString F"
  by (simp add: fieldNode_def leafField_def split: option.split)

lemma offset_fieldNode [simp]: "offset (fieldNode Ctx F) = getFieldOffset F"
  by (simp add: fieldNode_def leafField_def split: option.split)

lemma offset_baseNode [simp]: "offset (baseNode Ctx B) = getBaseClassOffset B * 8"
  by (simp add: baseNode_def)

lemma fieldType_fieldNode_neq [simp]:
  "fieldType (fieldNode Ctx F) \<noteq> NVBase" "fieldType (fieldNode Ctx F) \<noteq> VPtr"
  using fieldType_fieldNode[of Ctx F] by auto

lemma filter_NVBase_children:
  "filter (\<lambda>c. fieldType c = NVBase) (subFields (analyzeRecord Ctx RD)) =
     llvm_sort (map (baseNode Ctx) (filter (\<lambda>B. \<not> isVirtual B) (bases RD)))"
proof -
  have "filter (\<lambda>c. fieldType c = NVBase) (llvm_sort (map (baseNode Ctx) Bs)) =
          llvm_sort (map (baseNode Ctx) Bs)" for Bs
    by (rule filter_True) (auto simp: llvm_sort_def)
  moreover have "filter (\<lambda>c. fieldType c = NVBase) (map (fieldNode Ctx) Fs) = []" for Fs
    by (induction Fs) simp_all
  ultimately show ?thesis
    by (simp add: subFields_analyzeRecord)
qed

lemma filter_field_children:
  "filter (\<lambda>c. fieldType c \<in> {Simple, Record, BitField}) (subFields (analyzeRecord Ctx RD)) =
     map (fieldNode Ctx) (fields RD)"
proof -
  have "filter (\<lambda>c. fieldType c \<in> {Simple, Record, BitField})
          (llvm_sort (map (baseNode Ctx) Bs)) = []" for Bs
    by (auto simp: llvm_sort_def filter_empty_conv)
  moreover have "filter (\<lambda>c. fieldType c \<in> {Simple, Record, BitField}) (map (fieldNode Ctx) Fs)
      = map (fieldNode Ctx) Fs" for Fs
    using fieldType_fieldNode[of Ctx] by (intro filter_True) auto
  ultimately show ?thesis
    by (simp add: subFields_analyzeRecord)
qed

lemma valid_all_descendants:
  "isValid (analyzeRecord Ctx RD) =
     (\<not> isInvalidDecl RD \<and> list_all isValid (descendants (analyzeRecord Ctx RD)))"
proof
  assume v: "isValid (analyzeRecord Ctx RD)"
  then show "\<not> isInvalidDecl RD \<and> list_all isValid (descendants (analyzeRecord Ctx RD))"
    using valid_downward[OF v] by (simp add: isValid_analyzeRecord[of Ctx RD] list_all_iff)
next
  assume a: "\<not> isInvalidDecl RD \<and> list_all isValid (descendants (analyzeRecord Ctx RD))"
  have "set (subFields (analyzeRecord Ctx RD)) \<subseteq> set (descendants (analyzeRecord Ctx RD))"
    unfolding set_descendants[of "analyzeRecord Ctx RD"] by auto
  with a show "isValid (analyzeRecord Ctx RD)"
    by (auto simp: isValid_analyzeRecord_children[of Ctx RD] list_all_iff)
qed

lemma hd_children_no_vptr:
  "\<not> hasOwnVFPtr RD \<Longrightarrow> subFields (analyzeRecord Ctx RD) \<noteq> [] \<Longrightarrow>
     fieldType (hd (subFields (analyzeRecord Ctx RD))) \<noteq> VPtr"
proof -
  assume a: "\<not> hasOwnVFPtr RD" and b: "subFields (analyzeRecord Ctx RD) \<noteq> []"
  from b have "hd (subFields (analyzeRecord Ctx RD)) \<in> set (subFields (analyzeRecord Ctx RD))"
    by simp
  with a show ?thesis
    by (auto simp: set_subFields_analyzeRecord)
qed

lemma vptr_nodes:
  "n \<in> set (descendants (analyzeRecord Ctx RD)) \<Longrightarrow> fieldType n = VPtr \<Longrightarrow> n = VPtrInfo Ctx"
proof (induction RD arbitrary: n rule: decl_induct)
  case (Decl RD)
  from Decl.prems(1) obtain c where c: "c \<in> set (subFields (analyzeRecord Ctx RD))"
    and n: "n = c \<or> n \<in> set (descendants c)"
    unfolding set_descendants[of "analyzeRecord Ctx RD"] by auto
  from c consider (vptr) "c = VPtrInfo Ctx"
    | (base) B where "B \<in> set (bases RD)" "c = baseNode Ctx B"
    | (field) F where "F \<in> set (fields RD)" "c = fieldNode Ctx F"
    by (auto simp: set_subFields_analyzeRecord split: if_splits)
  then show ?case
  proof cases
    case vptr
    with n show ?thesis by auto
  next
    case (base B)
    with n Decl.prems(2) Decl.IH(1)[of B n] show ?thesis by auto
  next
    case (field F)
    show ?thesis
    proof (cases "getAsCXXRecordDecl F")
      case None
      with field n Decl.prems(2) show ?thesis
        using fieldType_fieldNode_neq(2)[of Ctx F] by (auto simp: fieldNode_def)
    next
      case (Some FR)
      with field n Decl.prems(2) Decl.IH(2)[of F FR n] show ?thesis
        using fieldType_fieldNode_neq(2)[of Ctx F] by (auto simp: fieldNode_def)
    qed
  qed
qed

section \<open>The listing, the map of records and decimal output\<close>

lemma recordListLoop_step:
  "recordListLoop (R # rest) (RL, first) =
     recordListLoop rest (RL @ (if first then [] else '','') @ spec_listEntry R, False)"
  by (simp add: spec_listEntry_def utostr_def Let_def)

lemma recordListLoop_eq:
  "recordListLoop Rs (RL, first) =
     (RL @ (if Rs = [] then [] else (if first then [] else '','') @ spec_commaSep (map spec_listEntry Rs)),
      first \<and> Rs = [])"
proof (induction Rs arbitrary: RL first)
  case Nil
  show ?case by simp
next
  case (Cons R Rs)
  show ?case
    unfolding recordListLoop_step Cons
    by (cases Rs) simp_all
qed

lemma getRecordList_text:
  "fst (getRecordList Ctx) = ''['' @ spec_commaSep (map spec_listEntry (records Ctx)) @ '']''"
  by (simp add: getRecordList_def recordListLoop_eq dupJson_def Let_def)

lemma getRecordList_state [simp]:
  "records (snd (getRecordList Ctx)) = records Ctx" "args (snd (getRecordList Ctx)) = args Ctx"
  by (simp_all add: getRecordList_def recordListLoop_eq Let_def)

lemma getLayoutForRecord_state [simp]: "snd (getLayoutForRecord id' Ctx) = Ctx"
  by (simp add: getLayoutForRecord_def split: option.split)

lemma setArgs_records [simp]: "records (setArgs newArgs Ctx) = records Ctx"
  by (simp add: setArgs_def split: option.split list.split)

lemma cleanup_records [simp]: "records (cleanup Ctx) = []"
  by (simp add: cleanup_def)

lemma map_find_None: "map_find k m = None \<longleftrightarrow> k \<notin> set (map fst m)"
  by (induction m) (auto split: if_splits)

lemma map_assign_keys: "set (map fst (map_assign k v m)) = insert k (set (map fst m))"
proof (induction m)
  case Nil
  show ?case by simp
next
  case (Cons e m)
  obtain k' v' where e: "e = (k', v')" by (cases e)
  from Cons show ?case
    unfolding e by (cases "k = k'"; cases "k <s k'") (simp_all add: insert_commute)
qed

lemma map_assign_keys_image: "fst ` set (map_assign k v m) = insert k (fst ` set m)"
  using map_assign_keys[of k v m] by simp

lemma sless_linear: "a \<noteq> b \<Longrightarrow> \<not> a <s b \<Longrightarrow> b <s (a :: 64 word)"
  by (auto simp: word_sless_alt not_less le_less dest: signed_word_eqI)

lemma sless_trans: "a <s b \<Longrightarrow> b <s c \<Longrightarrow> a <s (c :: 64 word)"
  by (simp add: word_sless_alt)

lemma map_assign_sorted:
  "sorted_wrt (<s) (map fst m) \<Longrightarrow> sorted_wrt (<s) (map fst (map_assign k v m))"
proof (induction m)
  case Nil
  show ?case by simp
next
  case (Cons e m)
  obtain k' v' where e: "e = (k', v')" by (cases e)
  from Cons.prems have tl: "sorted_wrt (<s) (map fst m)" and hd: "\<forall>x \<in> set (map fst m). k' <s x"
    by (auto simp: e)
  show ?case
  proof (cases "k = k'")
    case True
    with Cons.prems show ?thesis by (simp add: e)
  next
    case False
    show ?thesis
    proof (cases "k <s k'")
      case True
      with False Cons.prems hd show ?thesis
        by (auto simp: e intro: sless_trans)
    next
      case nl: False
      have kk: "k' <s k" using False nl sless_linear[of k k'] by simp
      have hd': "k' <s y" if "y \<in> fst ` set m" for y
        using that hd by auto
      have "k' <s fst x" if "x \<in> set (map_assign k v m)" for x
      proof -
        from that have "fst x \<in> insert k (fst ` set m)"
          using map_assign_keys_image[of k v m] by blast
        then show ?thesis using kk hd' by blast
      qed
      then have "\<forall>x \<in> set (map_assign k v m). k' <s fst x"
        by blast
      with False nl Cons.IH[OF tl] show ?thesis
        by (simp add: e)
    qed
  qed
qed

lemma decimal_not_Nil: "decimal n \<noteq> []"
  by (subst decimal.simps) simp

lemma digit_char_nth: "d < 10 \<Longrightarrow> digit_char d = ''0123456789'' ! d"
proof -
  assume "d < 10"
  then have "d \<in> {0, 1, 2, 3, 4, 5, 6, 7, 8, 9}" by simp arith
  then show ?thesis
    by (auto simp: digit_char_def intro!: of_char_eqI[where ?'a=nat])
qed

lemma digit_char_digit: "d < 10 \<Longrightarrow> digit_char d \<in> set ''0123456789''"
proof -
  assume d: "d < 10"
  then have "''0123456789'' ! d \<in> set ''0123456789''" by (intro nth_mem) simp
  with d show ?thesis by (simp only: digit_char_nth)
qed

lemma of_char_digit_char: "d < 10 \<Longrightarrow> (of_char (digit_char d) :: nat) = 48 + d"
  by (simp add: digit_char_def)

lemma decimal_digits: "c \<in> set (decimal n) \<Longrightarrow> c \<in> set ''0123456789''"
proof (induction n arbitrary: c rule: decimal.induct)
  case (1 X)
  show ?case
  proof (cases "X < 10")
    case True
    with "1.prems" have "c = digit_char X"
      by (subst (asm) decimal.simps) simp
    then show ?thesis
      using digit_char_digit[OF True] by blast
  next
    case False
    with "1.prems" have "c \<in> set (decimal (X div 10)) \<or> c = digit_char (X mod 10)"
      by (subst (asm) decimal.simps) auto
    moreover have "digit_char (X mod 10) \<in> set ''0123456789''"
      by (rule digit_char_digit) simp
    ultimately show ?thesis
      using "1.IH"[OF False] by blast
  qed
qed

lemma spec_read_decimal_snoc:
  "spec_read_decimal (s @ [c]) = 10 * spec_read_decimal s + (of_char c - 48)"
  by (simp add: spec_read_decimal_def)

lemma spec_read_decimal_decimal: "spec_read_decimal (decimal n) = n"
proof (induction n rule: decimal.induct)
  case (1 X)
  show ?case
  proof (cases "X < 10")
    case True
    then show ?thesis
      by (subst decimal.simps) (simp add: spec_read_decimal_def of_char_digit_char)
  next
    case False
    then show ?thesis
      by (subst decimal.simps)
         (simp add: spec_read_decimal_snoc "1.IH"[OF False] of_char_digit_char)
  qed
qed

lemma VisitCXXRecordDecl_sorted:
  "sorted_wrt (<s) (map fst (records LCtx)) \<Longrightarrow>
     sorted_wrt (<s) (map fst (records (VisitCXXRecordDecl Ctx RDp LCtx)))"
  by (simp add: VisitCXXRecordDecl_def map_assign_sorted Let_def split: option.split)

lemma HandleTranslationUnit_sorted:
  "sorted_wrt (<s) (map fst (records LCtx)) \<Longrightarrow>
     sorted_wrt (<s) (map fst (records (HandleTranslationUnit Ctx RDs LCtx)))"
  by (induction RDs arbitrary: LCtx) (simp_all add: VisitCXXRecordDecl_sorted)

lemma analyzeSource_sorted:
  "sorted_wrt (<s) (map fst (records (analyzeSource runTool source Ctx)))"
  by (simp add: analyzeSource_def Let_def HandleTranslationUnit_sorted split: prod.split)

lemma do_call_sorted:
  "sorted_wrt (<s) (map fst (records Ctx)) \<Longrightarrow>
     sorted_wrt (<s) (map fst (records (do_call runTool c Ctx)))"
  by (cases c) (simp_all add: analyzeSource_sorted)

lemma do_calls_sorted:
  "sorted_wrt (<s) (map fst (records Ctx)) \<Longrightarrow>
     sorted_wrt (<s) (map fst (records (do_calls runTool cs Ctx)))"
  by (induction cs arbitrary: Ctx) (simp_all add: do_call_sorted)

lemma do_call_records_empty:
  "\<not> isAnalyzeSource c \<Longrightarrow> records Ctx = [] \<Longrightarrow> records (do_call runTool c Ctx) = []"
  by (cases c) simp_all

lemma do_calls_records_empty:
  "list_all (\<lambda>c. \<not> isAnalyzeSource c) cs \<Longrightarrow> records Ctx = [] \<Longrightarrow>
     records (do_calls runTool cs Ctx) = []"
  by (induction cs arbitrary: Ctx) (simp_all add: do_call_records_empty)

lemma commaSep_member:
  "x \<in> set xs \<Longrightarrow> \<exists>pre post. spec_commaSep xs = pre @ x @ post"
proof (induction xs rule: spec_commaSep.induct)
  case 1
  then show ?case by simp
next
  case (2 y)
  then have "spec_commaSep [y] = [] @ x @ []" by simp
  then show ?case by blast
next
  case (3 y z zs)
  show ?case
  proof (cases "x = y")
    case True
    then have "spec_commaSep (y # z # zs) = [] @ x @ ('','' @ spec_commaSep (z # zs))" by simp
    then show ?thesis by blast
  next
    case False
    with 3 obtain pre post where "spec_commaSep (z # zs) = pre @ x @ post" by auto
    then have "spec_commaSep (y # z # zs) = (y @ '','' @ pre) @ x @ post" by simp
    then show ?thesis by blast
  qed
qed

lemma unat_drop_bit_3: "unat (drop_bit 3 (w :: 64 word)) = unat w div 8"
  by (simp add: unat_drop_bit_eq drop_bit_eq_div unat_div)

section \<open>The scenarios of the specification, computed\<close>

text \<open>
  Scenario A: the node of \<open>B\<close> has one base child of type \<open>A\<close> at offset 0 without a
  name, holding \<open>x\<close> and \<open>y\<close>, and then the field \<open>z\<close> at bit 64, which is byte 8.
\<close>

lemma scenario_A:
  "analyzeRecord target_x86_64 exB =
     FieldInfo True Record [] ''B'' 0 16 8 0
       [FieldInfo True NVBase [] ''A'' 0 8 4 0
          [FieldInfo True Simple ''x'' ''int'' 0 4 4 0 [],
           FieldInfo True Simple ''y'' ''char'' 32 1 1 0 []],
        FieldInfo True Simple ''z'' ''double'' 64 8 8 0 []]"
  by code_simp

text \<open>
  Scenario B: two bit-field children of widths 3 and 5, both rendered at byte offset 0.
\<close>

lemma scenario_B:
  "map (\<lambda>c. (fieldType c, bitWidth c, drop_bit 3 (offset c)))
     (subFields (analyzeRecord target_x86_64 exC)) = [(BitField, 3, 0), (BitField, 5, 0)]"
  by code_simp

text \<open>
  The bases of \<open>M\<close> are listed as \<open>A\<close>, \<open>V\<close> and laid out as \<open>V\<close>, \<open>A\<close>; the node
  has them in the order of the layout.
\<close>

lemma bases_of_M_in_layout_order:
  "map type (subFields (analyzeRecord target_x86_64 exM)) = [''V'', ''A'']"
  by code_simp

text \<open>The listing of the example session.\<close>

lemma listing_of_exSession:
  "fst (getRecordList exSession) =
     ''[{'' @ DQ @ ''id'' @ DQ @ '':'' @ DQ @ ''1'' @ DQ @ '','' @ DQ @ ''name'' @ DQ @ '':'' @ DQ @ ''A'' @ DQ @
     ''},{'' @ DQ @ ''id'' @ DQ @ '':'' @ DQ @ ''2'' @ DQ @ '','' @ DQ @ ''name'' @ DQ @ '':'' @ DQ @ ''B'' @ DQ @
     ''},{'' @ DQ @ ''id'' @ DQ @ '':'' @ DQ @ ''7'' @ DQ @ '','' @ DQ @ ''name'' @ DQ @ '':'' @ DQ @ ''M'' @ DQ @
     ''},{'' @ DQ @ ''id'' @ DQ @ '':'' @ DQ @ ''10'' @ DQ @ '','' @ DQ @ ''name'' @ DQ @ '':'' @ DQ @ ''C'' @ DQ @
     ''}]''"
  by code_simp

section \<open>The claims\<close>

text \<open>
  C5. For every input string, \<^verbatim>\<open>writeEscaped\<close> writes, byte after byte, what the
  escaping rule of the specification prescribes: the double quote and the backslash
  escaped, the five short escapes, \<^verbatim>\<open>\u\<close> with four hexadecimal digits for every
  other byte below \<open>0x20\<close>, and every other byte unchanged.
\<close>

theorem writeEscaped_refines_spec: "writeEscaped S = concat (map spec_escape S)"
  by (induction S) (simp_all add: writeEscaped_char_spec)

text \<open>
  C8. \<^verbatim>\<open>cleanup\<close> empties the map of records and the cached listing and leaves the
  configuration string as it was, from every session state.
\<close>

theorem cleanup_clears_records_keeps_args:
  "records (cleanup Ctx) = [] \<and> recordList (cleanup Ctx) = [] \<and> args (cleanup Ctx) = args Ctx"
  by (simp add: cleanup_def)

text \<open>
  C1 (as amended). In the node of every analyzed record the child list is the vptr node
  (if the record owns one), then the nodes of the non-virtual bases, then the nodes of
  the fields. The base nodes are the nodes of the non-virtual bases of the inheritance
  list, rearranged so that their offsets ascend (bases may share an offset, so the order
  is not strict). The field nodes are the nodes of the fields in declaration order, each
  with the name and the offset of its field, whatever the offsets are.
\<close>

theorem analyzeRecord_children_order:
  "let K = subFields (analyzeRecord Ctx RD);
       bs = filter (\<lambda>c. fieldType c = NVBase) K;
       fs = filter (\<lambda>c. fieldType c \<in> {Simple, Record, BitField}) K
   in K = (if hasOwnVFPtr RD then [VPtrInfo Ctx] else []) @ bs @ fs
      \<and> sorted (map offset bs)
      \<and> mset bs = mset (map (baseNode Ctx) (filter (\<lambda>B. \<not> isVirtual B) (bases RD)))
      \<and> fs = map (fieldNode Ctx) (fields RD)
      \<and> map name fs = map getNameAsString (fields RD)
      \<and> map offset fs = map getFieldOffset (fields RD)"
  unfolding Let_def filter_NVBase_children filter_field_children
  by (simp add: subFields_analyzeRecord llvm_sort_def comp_def)

text \<open>
  C1 as stated fails: the two empty bases of \<open>D\<close> both lie at offset 0, so the base
  children of \<open>D\<close> are not strictly ascending.
\<close>

theorem empty_bases_not_strictly_ascending:
  "\<not> sorted_wrt (<) (map offset (filter (\<lambda>c. fieldType c = NVBase)
                                 (subFields (analyzeRecord target_x86_64 exD))))"
  by code_simp

text \<open>
  C2. The node that \<^verbatim>\<open>analyzeRecord\<close> returns for a declaration is valid exactly when
  the declaration is well formed and every child inserted into the node is valid, and,
  the same rule holding in every node below, exactly when the declaration is well formed
  and every node below the root is valid. A base never stops the analysis: the node has
  one base child for each non-virtual base of the declaration, whether the child is valid
  or not.
\<close>

theorem analyzeRecord_isValid_conjunction:
  "isValid (analyzeRecord Ctx RD) =
     (\<not> isInvalidDecl RD \<and> list_all isValid (subFields (analyzeRecord Ctx RD)))
   \<and> isValid (analyzeRecord Ctx RD) =
     (\<not> isInvalidDecl RD \<and> list_all isValid (descendants (analyzeRecord Ctx RD)))
   \<and> mset (filter (\<lambda>c. fieldType c = NVBase) (subFields (analyzeRecord Ctx RD))) =
       mset (map (baseNode Ctx) (filter (\<lambda>B. \<not> isVirtual B) (bases RD)))"
  using isValid_analyzeRecord_children[of Ctx RD] valid_all_descendants[of Ctx RD]
  by (simp add: filter_NVBase_children llvm_sort_def)

text \<open>
  C3 (as amended). A record owns its virtual-table pointer if and only if the first child
  of its node is a \<open>VPtr\<close> node; that node is at offset 0, its size is the pointer width
  of the target and its alignment is the pointer alignment of the target, both converted
  from bits to \<^verbatim>\<open>CharUnits\<close>.
\<close>

theorem analyzeRecord_vptr_first:
  "(hasOwnVFPtr RD \<longleftrightarrow>
      subFields (analyzeRecord Ctx RD) \<noteq> [] \<and>
      fieldType (hd (subFields (analyzeRecord Ctx RD))) = VPtr)
   \<and> (hasOwnVFPtr RD \<longrightarrow>
        offset (hd (subFields (analyzeRecord Ctx RD))) = 0 \<and>
        size' (hd (subFields (analyzeRecord Ctx RD))) =
          toCharUnitsFromBits Ctx (getPointerWidth Ctx) \<and>
        align (hd (subFields (analyzeRecord Ctx RD))) =
          toCharUnitsFromBits Ctx (getPointerAlign Ctx))"
proof (cases "hasOwnVFPtr RD")
  case True
  then show ?thesis by (simp add: subFields_analyzeRecord VPtrInfo_def)
next
  case False
  then show ?thesis using hd_children_no_vptr[of RD Ctx] by auto
qed

text \<open>
  The record \<open>V\<close> on the 64-bit target owns its pointer: the first child of its node is
  a \<open>VPtr\<close> node at offset 0 of size 8 and alignment 8.
\<close>

theorem analyzeRecord_vptr_first_witness:
  "hasOwnVFPtr exV \<and>
   fieldType (hd (subFields (analyzeRecord target_x86_64 exV))) = VPtr \<and>
   offset (hd (subFields (analyzeRecord target_x86_64 exV))) = 0 \<and>
   size' (hd (subFields (analyzeRecord target_x86_64 exV))) = 8 \<and>
   align (hd (subFields (analyzeRecord target_x86_64 exV))) = 8"
  using analyzeRecord_vptr_first[of exV target_x86_64]
  by (simp add: exV_def target_x86_64_def toCharUnitsFromBits_def)

text \<open>
  C3 as stated fails where the pointer alignment of the target is not its pointer width:
  on the 16-bit target the pointer of \<open>V\<close> is aligned to one byte, not to the two
  bytes of the pointer width.
\<close>

theorem vptr_align_is_not_pointer_width:
  "hasOwnVFPtr exV16 \<and>
   align (hd (subFields (analyzeRecord target_avr exV16))) \<noteq>
     toCharUnitsFromBits target_avr (getPointerWidth target_avr)"
  by code_simp

text \<open>
  C10. Every \<open>VPtr\<close> node in the tree that \<^verbatim>\<open>analyzeRecord\<close> builds is valid, has an
  empty name, the type string \<^verbatim>\<open>vptr\<close> and offset 0, whether the declarations around
  it are well formed or not.
\<close>

theorem vptr_node_always_valid:
  "\<forall>n \<in> set (allNodes (analyzeRecord Ctx RD)).
     fieldType n = VPtr \<longrightarrow> isValid n \<and> name n = [] \<and> type n = ''vptr'' \<and> offset n = 0"
proof -
  have "isValid (VPtrInfo Ctx) \<and> name (VPtrInfo Ctx) = [] \<and> type (VPtrInfo Ctx) = ''vptr''
          \<and> offset (VPtrInfo Ctx) = 0"
    by (simp add: VPtrInfo_def make_FieldInfo_def)
  then show ?thesis
    using vptr_nodes[of _ Ctx RD] by (auto simp: allNodes_eq[of "analyzeRecord Ctx RD"])
qed

text \<open>
  The declaration \<open>exBad\<close> is invalid and so is its node, and the \<open>VPtr\<close> child of the
  node is valid all the same.
\<close>

theorem vptr_node_always_valid_witness:
  "isInvalidDecl exBad \<and> \<not> isValid (analyzeRecord target_x86_64 exBad) \<and>
   hd (subFields (analyzeRecord target_x86_64 exBad)) \<in> set (allNodes (analyzeRecord target_x86_64 exBad)) \<and>
   fieldType (hd (subFields (analyzeRecord target_x86_64 exBad))) = VPtr \<and>
   isValid (hd (subFields (analyzeRecord target_x86_64 exBad))) \<and>
   name (hd (subFields (analyzeRecord target_x86_64 exBad))) = [] \<and>
   type (hd (subFields (analyzeRecord target_x86_64 exBad))) = ''vptr'' \<and>
   offset (hd (subFields (analyzeRecord target_x86_64 exBad))) = 0"
proof -
  have m: "hd (subFields (analyzeRecord target_x86_64 exBad))
             \<in> set (allNodes (analyzeRecord target_x86_64 exBad))"
    and t: "fieldType (hd (subFields (analyzeRecord target_x86_64 exBad))) = VPtr"
    and i: "isInvalidDecl exBad" "\<not> isValid (analyzeRecord target_x86_64 exBad)"
    by code_simp+
  from vptr_node_always_valid[of target_x86_64 exBad] m t i show ?thesis by blast
qed

text \<open>
  C4. The text that \<^verbatim>\<open>writeField\<close> writes for a node, any node of a tree that
  \<^verbatim>\<open>getLayoutForRecord\<close> serializes, consists of the opening brace, the keys before
  \<^verbatim>\<open>offset\<close>, the key \<^verbatim>\<open>offset\<close> with the decimal digits of the stored bit offset
  divided by 8 (the unsigned quotient, rounded towards zero), and the rest of the object.
  \<^verbatim>\<open>getLayoutForRecord\<close> returns what \<^verbatim>\<open>writeField\<close> writes for the root stored under
  the identity.
\<close>

theorem writeField_offset_in_bytes:
  "(\<exists>post. writeField F Depth =
      ''{'' @ spec_keys_before_offset F @ '','' @ DQ @ ''offset'' @ DQ @ '':'' @
      decimal (unat (offset F) div 8) @ post
      \<and> (post = ''}'' \<or> (\<exists>r. post = CHR '','' # r)))
   \<and> (map_find id' (records Ctx) = Some Root \<longrightarrow>
        fst (getLayoutForRecord id' Ctx) = writeField Root 0)"
proof -
  let ?post = "(if fieldType F = BitField then
        '','' @ DQ @ ''bitWidth'' @ DQ @ '':'' @ write_uint64 (bitWidth F)
      else []) @
     (if fieldType F = Record \<or> fieldType F = NVBase then
        '','' @ DQ @ ''subFields'' @ DQ @ '': ['' @
        writeSubFields (subFields F) Depth True @ '']''
      else []) @
     ''}''"
  have "writeField F Depth =
      ''{'' @ spec_keys_before_offset F @ '','' @ DQ @ ''offset'' @ DQ @ '':'' @
      decimal (unat (offset F) div 8) @ ?post"
    by (subst writeField.simps)
       (simp add: spec_keys_before_offset_def write_uint64_def unat_drop_bit_3)
  moreover have "?post = ''}'' \<or> (\<exists>r. ?post = CHR '','' # r)"
    by (cases "fieldType F") simp_all
  ultimately have "\<exists>post. writeField F Depth =
      ''{'' @ spec_keys_before_offset F @ '','' @ DQ @ ''offset'' @ DQ @ '':'' @
      decimal (unat (offset F) div 8) @ post
      \<and> (post = ''}'' \<or> (\<exists>r. post = CHR '','' # r))"
    by blast
  then show ?thesis
    by (simp add: getLayoutForRecord_def dupJson_def)
qed

text \<open>
  In the example session the identity 10 is that of \<open>C\<close>, and the text returned for it
  is the serialization of the node of \<open>C\<close>, whose bit-fields start at bits 0 and 3.
\<close>

theorem writeField_offset_in_bytes_witness:
  "map_find 10 (records exSession) = Some (analyzeRecord target_x86_64 exC) \<and>
   fst (getLayoutForRecord 10 exSession) = writeField (analyzeRecord target_x86_64 exC) 0"
proof -
  have h: "map_find 10 (records exSession) = Some (analyzeRecord target_x86_64 exC)"
    by code_simp
  from writeField_offset_in_bytes[of _ _ 10 exSession "analyzeRecord target_x86_64 exC"] h
  show ?thesis by blast
qed

text \<open>
  C6. \<^verbatim>\<open>getRecordList\<close> returns the array of the entries of the map, in the order of
  the map; in every state that a sequence of calls reaches from the initial state the map
  is in ascending order of the identities; the text is \<^verbatim>\<open>[]\<close> when the map is empty,
  and so after \<^verbatim>\<open>cleanup\<close> followed by any calls other than \<^verbatim>\<open>analyzeSource\<close>.
\<close>

theorem getRecordList_array_ascending:
  "fst (getRecordList Ctx) = ''['' @ spec_commaSep (map spec_listEntry (records Ctx)) @ '']''
   \<and> sorted_wrt (<s) (map fst (records (do_calls runTool calls getContext)))
   \<and> (records Ctx = [] \<longrightarrow> fst (getRecordList Ctx) = ''[]'')
   \<and> (list_all (\<lambda>c. \<not> isAnalyzeSource c) calls \<longrightarrow>
        fst (getRecordList (do_calls runTool calls (cleanup Ctx))) = ''[]'')"
proof -
  have "sorted_wrt (<s) (map fst (records (do_calls runTool calls getContext)))"
    by (rule do_calls_sorted) (simp add: getContext_def)
  moreover have "fst (getRecordList (do_calls runTool calls (cleanup Ctx))) = ''[]''"
    if "list_all (\<lambda>c. \<not> isAnalyzeSource c) calls"
    using do_calls_records_empty[OF that, of "cleanup Ctx" runTool]
    by (simp add: getRecordList_text)
  ultimately show ?thesis
    by (simp add: getRecordList_text)
qed

text \<open>
  The map of the initial state is empty and its listing is \<^verbatim>\<open>[]\<close>; after
  \<^verbatim>\<open>cleanup\<close> of the example session, three calls that are not \<^verbatim>\<open>analyzeSource\<close>
  leave the listing \<^verbatim>\<open>[]\<close>.
\<close>

theorem getRecordList_array_ascending_witness:
  "records getContext = [] \<and> fst (getRecordList getContext) = ''[]'' \<and>
   list_all (\<lambda>c. \<not> isAnalyzeSource c) [SetArgs None, GetRecordList, GetLayoutForRecord 1] \<and>
   fst (getRecordList (do_calls exFrontEnd [SetArgs None, GetRecordList, GetLayoutForRecord 1]
                         (cleanup exSession))) = ''[]''"
  using getRecordList_array_ascending[of getContext exFrontEnd
          "[SetArgs None, GetRecordList, GetLayoutForRecord 1]"]
        getRecordList_array_ascending[of exSession exFrontEnd
          "[SetArgs None, GetRecordList, GetLayoutForRecord 1]"]
  by (simp add: getContext_def)

text \<open>
  C7. For an identity that is not a key of the map, \<^verbatim>\<open>getLayoutForRecord\<close> returns
  \<^verbatim>\<open>{}\<close> and leaves the session state as it was.
\<close>

theorem getLayoutForRecord_unknown:
  "id' \<notin> fst ` set (records Ctx) \<Longrightarrow> getLayoutForRecord id' Ctx = (''{}'', Ctx)"
  using map_find_None[of id' "records Ctx"]
  by (simp add: getLayoutForRecord_def dupJson_def)

text \<open>The identity 99 is not in the example session.\<close>

theorem getLayoutForRecord_unknown_witness:
  "99 \<notin> fst ` set (records exSession) \<and> getLayoutForRecord 99 exSession = (''{}'', exSession)"
proof -
  have h: "99 \<notin> fst ` set (records exSession)" by code_simp
  from h getLayoutForRecord_unknown[OF h] show ?thesis by simp
qed

text \<open>
  C9. For every entry of the map, the text of \<^verbatim>\<open>getRecordList\<close> contains the entry
  with the identity between double quotes; the identity is a string of decimal digits,
  not empty, that denotes the identity read as an unsigned 64-bit number.
\<close>

theorem getRecordList_id_quoted_decimal:
  "(k, v) \<in> set (records Ctx) \<Longrightarrow>
     (\<exists>pre post. fst (getRecordList Ctx) =
        pre @ ''{'' @ DQ @ ''id'' @ DQ @ '':'' @ DQ @ utostr k @ DQ @ '','' @
        DQ @ ''name'' @ DQ @ '':'' @ DQ @ writeEscaped (type v) @ DQ @ ''}'' @ post)
     \<and> utostr k \<noteq> []
     \<and> (\<forall>c \<in> set (utostr k). c \<in> set ''0123456789'')
     \<and> spec_read_decimal (utostr k) = unat k"
proof -
  assume m: "(k, v) \<in> set (records Ctx)"
  then have "spec_listEntry (k, v) \<in> set (map spec_listEntry (records Ctx))" by simp
  from commaSep_member[OF this] obtain pre post where
    "spec_commaSep (map spec_listEntry (records Ctx)) = pre @ spec_listEntry (k, v) @ post"
    by blast
  then have "fst (getRecordList Ctx) = (''['' @ pre) @ spec_listEntry (k, v) @ (post @ '']'')"
    by (simp add: getRecordList_text)
  then have "\<exists>pre post. fst (getRecordList Ctx) = pre @ spec_listEntry (k, v) @ post"
    by blast
  then show ?thesis
    using decimal_digits[of _ "unat k"]
    by (simp add: spec_listEntry_def utostr_def decimal_not_Nil spec_read_decimal_decimal
          del: set_simps)
qed

text \<open>The entry of \<open>A\<close>, identity 1, in the example session.\<close>

theorem getRecordList_id_quoted_decimal_witness:
  "(1, analyzeRecord target_x86_64 exA) \<in> set (records exSession) \<and>
   utostr 1 = ''1'' \<and>
   (\<exists>pre post. fst (getRecordList exSession) =
        pre @ ''{'' @ DQ @ ''id'' @ DQ @ '':'' @ DQ @ utostr 1 @ DQ @ '','' @
        DQ @ ''name'' @ DQ @ '':'' @ DQ @ writeEscaped (type (analyzeRecord target_x86_64 exA)) @
        DQ @ ''}'' @ post)"
proof -
  have m: "(1, analyzeRecord target_x86_64 exA) \<in> set (records exSession)" by code_simp
  have u: "utostr 1 = ''1''" by code_simp
  from getRecordList_id_quoted_decimal[OF m] m u show ?thesis by blast
qed

end
